theory Spec2Isabelle
  imports Complex_Main
begin

section \<open>The weighted empirical sample collection of pyprob\<close>

text \<open>
  A shallow embedding of \<^verbatim>\<open>pyprob/distributions/empirical.py\<close> (class \<^verbatim>\<open>Empirical\<close>).
  Python objects that are mutated through several names are kept in an explicit store:
  the list objects behind \<^verbatim>\<open>_values\<close> and \<^verbatim>\<open>_log_weights\<close> live in \<open>val_lists\<close> and
  \<open>lw_lists\<close> and an \<^verbatim>\<open>Empirical\<close> object holds references to them; the files behind
  \<^verbatim>\<open>shelve.open\<close> live in \<open>files\<close>. Every method takes the store and the object
  and returns the new store and the new object, or the exception it raises (what a
  method has assigned before it raises is not kept: no property below reads the state
  after an exception).
  Log-weights (tensors of one float) are real numbers here, \<^verbatim>\<open>torch.eq\<close> is equality and
  \<^verbatim>\<open>torch.log\<close> is \<open>ln\<close>; the values are of any type \<open>'v\<close>.
\<close>

subsection \<open>Exceptions\<close>

datatype error =
    RuntimeError string
  | TypeError string
  | NotImplementedError
  | IndexError
  | KeyError
  | ValueError
  | AttributeError
  | ZeroDivisionError
  | RecursionError

definition msg_not_finalized :: string where
  "msg_not_finalized = ''Empirical not finalized. Call finalize first.''"

definition msg_min_max :: string where
  "msg_min_max = ''Cannot compute the minimum and maximum of values in this Empirical. Make sure the distribution is over values that are scalar or castable to scalar, e.g., a PyTorch tensor of one element.''"





subsection \<open>The store: list objects and shelve files\<close>

text \<open>
  The content of a shelve file: the entries under the keys \<^verbatim>\<open>'name'\<close>, \<^verbatim>\<open>'log_weights'\<close>,
  \<^verbatim>\<open>'last_key'\<close>, and the values under the keys \<^verbatim>\<open>str(i)\<close> (indexed by \<open>i\<close>, as \<^verbatim>\<open>str\<close> is
  injective on integers and never gives one of the three reserved keys). \<open>db_syncs\<close>
  counts the runs of \<^verbatim>\<open>Shelf.sync\<close> on the file. An entry is written to the file when it
  is assigned; what \<^verbatim>\<open>sync\<close> writes back from the cache of \<^verbatim>\<open>writeback=True\<close> is, at every
  call of this class, the entries \<^verbatim>\<open>finalize\<close> has just assigned.
\<close>

record 'v dbm =
  db_name :: "string option"
  db_log_weights :: "real list option"
  db_last_key :: "int option"
  db_items :: "int \<Rightarrow> 'v option"
  db_syncs :: nat

definition empty_dbm :: "'v dbm" where
  "empty_dbm = \<lparr>db_name = None, db_log_weights = None, db_last_key = None,
     db_items = (\<lambda>k. None), db_syncs = 0\<rparr>"

record 'v world =
  val_lists :: "nat \<Rightarrow> 'v list"
  lw_lists :: "nat \<Rightarrow> real list"
  next_ref :: nat
  files :: "string \<Rightarrow> 'v dbm"

definition empty_world :: "'v world" where
  "empty_world = \<lparr>val_lists = (\<lambda>r. []), lw_lists = (\<lambda>r. []), next_ref = 0,
     files = (\<lambda>f. empty_dbm)\<rparr>"

subsection \<open>Categorical\<close>

text \<open>
  Modelled from the spec: the class \<^verbatim>\<open>Categorical\<close> of \<^verbatim>\<open>pyprob.distributions\<close> is imported
  by \<^verbatim>\<open>empirical.py\<close> and is not among the sources. The spec's CategoricalWeighting has
  \<open>logits\<close>, a copy of the log-weights at the last finalize, and \<open>probabilities\<close>, the
  soft-max normalisation of the logits.
\<close>

record categorical =
  logits :: "real list"
  probs :: "real list"

definition Categorical :: "real list \<Rightarrow> categorical" where
  "Categorical lws =
     \<lparr>logits = lws, probs = map (\<lambda>l. exp l / sum_list (map exp lws)) lws\<rparr>"

subsection \<open>The object\<close>

text \<open>
  The attributes of an \<^verbatim>\<open>Empirical\<close>, \<open>e_x\<close> for \<^verbatim>\<open>self._x\<close> (\<open>e_name\<close> for \<^verbatim>\<open>self.name\<close>).
  \<open>e_log_weights\<close> and \<open>e_values\<close> are references into the store. \<open>e_shelf_closed\<close> is
  the state of the \<^verbatim>\<open>Shelf\<close> object \<^verbatim>\<open>self._shelf\<close>, opened on the file \<open>e_file_name\<close>.
  The attributes of the other storage mode (\<open>e_values\<close> on disk, the file attributes in
  memory) are never read by the class and hold a default.
\<close>

record 'v empirical =
  e_finalized :: bool
  e_closed :: bool
  e_categorical :: "categorical option"
  e_log_weights :: nat
  e_length :: nat
  e_on_disk :: bool
  e_values :: nat
  e_file_name :: string
  e_shelf_closed :: bool
  e_file_last_key :: int
  e_file_sync_timeout :: int
  e_file_sync_countdown :: int
  e_mean :: "real option"
  e_variance :: "real option"
  e_mode :: "'v option"
  e_min :: "real option"
  e_max :: "real option"
  e_effective_sample_size :: "real option"
  e_uniform_weights :: bool
  e_name :: string

definition file_of :: "'v world \<Rightarrow> 'v empirical \<Rightarrow> 'v dbm" where
  "file_of w e = files w (e_file_name e)"

definition put_file :: "'v world \<Rightarrow> 'v empirical \<Rightarrow> 'v dbm \<Rightarrow> 'v world" where
  "put_file w e d = w\<lparr>files := (files w)(e_file_name e := d)\<rparr>"

text \<open>\<^verbatim>\<open>self._shelf[str(k)]\<close>: a closed shelf raises ValueError, a missing key KeyError.\<close>

definition shelf_getitem :: "'v world \<Rightarrow> 'v empirical \<Rightarrow> int \<Rightarrow> error + 'v" where
  "shelf_getitem w e k =
     (if e_shelf_closed e then Inl ValueError
      else case db_items (file_of w e) k of None \<Rightarrow> Inl KeyError | Some v \<Rightarrow> Inr v)"

text \<open>\<^verbatim>\<open>xs[i]\<close> on a Python list: a negative index counts from the end.\<close>

definition list_getitem :: "'a list \<Rightarrow> int \<Rightarrow> error + 'a" where
  "list_getitem xs i =
     (if 0 \<le> i \<and> i < int (length xs) then Inr (xs ! nat i)
      else if i < 0 \<and> - int (length xs) \<le> i then Inr (xs ! nat (int (length xs) + i))
      else Inl IndexError)"

subsection \<open>finalize, add, add\_sequence, the constructor\<close>

text \<open>
  \<^verbatim>\<open>finalize\<close>. Line 100 compares every logit with the first one by \<^verbatim>\<open>torch.eq\<close>, which
  compares the numbers two floats stand for; here the logits are real numbers and the
  comparison is equality. What is particular to floats (\<^verbatim>\<open>0.0 == -0.0\<close> with different bits,
  \<^verbatim>\<open>nan != nan\<close>, rounding) is not in this model.
\<close>

definition finalize :: "'v world \<Rightarrow> 'v empirical \<Rightarrow> error + ('v world \<times> 'v empirical)" where
  "finalize w e =
     (let c = Categorical (lw_lists w (e_log_weights e)) in
      case logits c of
        [] \<Rightarrow> Inl IndexError
      | l0 # ls \<Rightarrow>
          (let e1 = e\<lparr>e_categorical := Some c,
                      e_uniform_weights := list_all (\<lambda>l. l = l0) (logits c),
                      e_length := length (lw_lists w (e_log_weights e))\<rparr>
           in if e_on_disk e1 then
                (if e_shelf_closed e1 then Inl ValueError
                 else Inr (put_file w e1 ((file_of w e1)
                             \<lparr>db_name := Some (e_name e1),
                              db_log_weights := Some (lw_lists w (e_log_weights e1)),
                              db_last_key := Some (e_file_last_key e1),
                              db_syncs := Suc (db_syncs (file_of w e1))\<rparr>),
                           e1\<lparr>e_finalized := True\<rparr>))
              else Inr (w, e1\<lparr>e_finalized := True\<rparr>)))"

definition check_finalized :: "'v empirical \<Rightarrow> error + unit" where
  "check_finalized e =
     (if \<not> e_finalized e then Inl (RuntimeError msg_not_finalized) else Inr ())"

text \<open>
  The log-weight \<^verbatim>\<open>add\<close> appends: \<^verbatim>\<open>log_weight\<close> when it is given, else the logarithm of
  \<^verbatim>\<open>weight\<close> when that is given, else 0. For a positive weight \<^verbatim>\<open>torch.log\<close> is \<open>ln\<close>. For
  the weight 0 the code stores \<^verbatim>\<open>-inf\<close> and for a negative weight \<^verbatim>\<open>nan\<close>, which are no real
  numbers: there \<open>ln\<close> is some real number, and no property below reads it.
\<close>

definition to_log_weight :: "real option \<Rightarrow> real option \<Rightarrow> real" where
  "to_log_weight log_weight weight =
     (case log_weight of
        Some l \<Rightarrow> l
      | None \<Rightarrow> (case weight of Some wt \<Rightarrow> ln wt | None \<Rightarrow> 0))"

definition add ::
  "'v world \<Rightarrow> 'v empirical \<Rightarrow> 'v \<Rightarrow> real option \<Rightarrow> real option \<Rightarrow>
   error + ('v world \<times> 'v empirical)" where
  "add w e val log_weight weight =
     (let e1 = e\<lparr>e_finalized := False, e_mean := None, e_variance := None, e_mode := None,
                 e_min := None, e_max := None, e_effective_sample_size := None\<rparr>;
          lw = to_log_weight log_weight weight;
          w1 = w\<lparr>lw_lists := (lw_lists w)
                  (e_log_weights e1 := lw_lists w (e_log_weights e1) @ [lw])\<rparr>
      in if e_on_disk e1 then
           (let e2 = e1\<lparr>e_file_last_key := e_file_last_key e1 + 1\<rparr> in
            if e_shelf_closed e2 then Inl ValueError
            else
              (let w2 = put_file w1 e2 ((file_of w1 e2)
                          \<lparr>db_items := (db_items (file_of w1 e2))
                             (e_file_last_key e2 := Some val)\<rparr>);
                   e3 = e2\<lparr>e_file_sync_countdown := e_file_sync_countdown e2 - 1\<rparr>
               in if e_file_sync_countdown e3 = 0 then
                    (case finalize w2 e3 of
                       Inl err \<Rightarrow> Inl err
                     | Inr (w3, e4) \<Rightarrow>
                         Inr (w3, e4\<lparr>e_file_sync_countdown := e_file_sync_timeout e4\<rparr>))
                  else Inr (w2, e3)))
         else Inr (w1\<lparr>val_lists := (val_lists w1)
                       (e_values e1 := val_lists w1 (e_values e1) @ [val])\<rparr>, e1))"

text \<open>
  The three loops of \<^verbatim>\<open>add_sequence\<close>, over \<^verbatim>\<open>range(len(values))\<close>: \<^verbatim>\<open>log_weights[i]\<close> and
  \<^verbatim>\<open>weights[i]\<close> raise IndexError when the weight sequence is the shorter one.
\<close>

fun add_sequence_log_weights ::
  "'v world \<Rightarrow> 'v empirical \<Rightarrow> 'v list \<Rightarrow> real list \<Rightarrow> error + ('v world \<times> 'v empirical)" where
  "add_sequence_log_weights w e [] ls = Inr (w, e)"
| "add_sequence_log_weights w e (v # vs) [] = Inl IndexError"
| "add_sequence_log_weights w e (v # vs) (l # ls) =
     (case add w e v (Some l) None of
        Inl err \<Rightarrow> Inl err
      | Inr (w1, e1) \<Rightarrow> add_sequence_log_weights w1 e1 vs ls)"

fun add_sequence_weights ::
  "'v world \<Rightarrow> 'v empirical \<Rightarrow> 'v list \<Rightarrow> real list \<Rightarrow> error + ('v world \<times> 'v empirical)" where
  "add_sequence_weights w e [] ws = Inr (w, e)"
| "add_sequence_weights w e (v # vs) [] = Inl IndexError"
| "add_sequence_weights w e (v # vs) (wt # ws) =
     (case add w e v None (Some wt) of
        Inl err \<Rightarrow> Inl err
      | Inr (w1, e1) \<Rightarrow> add_sequence_weights w1 e1 vs ws)"

fun add_sequence_plain ::
  "'v world \<Rightarrow> 'v empirical \<Rightarrow> 'v list \<Rightarrow> error + ('v world \<times> 'v empirical)" where
  "add_sequence_plain w e [] = Inr (w, e)"
| "add_sequence_plain w e (v # vs) =
     (case add w e v None None of
        Inl err \<Rightarrow> Inl err
      | Inr (w1, e1) \<Rightarrow> add_sequence_plain w1 e1 vs)"

definition add_sequence ::
  "'v world \<Rightarrow> 'v empirical \<Rightarrow> 'v list \<Rightarrow> real list option \<Rightarrow> real list option \<Rightarrow>
   error + ('v world \<times> 'v empirical)" where
  "add_sequence w e vals log_weights weights =
     (case log_weights of
        Some ls \<Rightarrow> add_sequence_log_weights w e vals ls
      | None \<Rightarrow>
          (case weights of
             Some ws \<Rightarrow> add_sequence_weights w e vals ws
           | None \<Rightarrow> add_sequence_plain w e vals))"

text \<open>
  \<^verbatim>\<open>Empirical(values, log_weights, weights, file_name, file_sync_timeout, name)\<close>. The list
  \<^verbatim>\<open>[]\<close> (or the list read from the shelf) of \<^verbatim>\<open>_log_weights\<close> is a new object at
  \<open>next_ref w\<close>, the list of \<^verbatim>\<open>_values\<close> a new object at \<open>next_ref w + 1\<close>. An existing
  shelf that has the key \<^verbatim>\<open>'log_weights'\<close> is resumed: its name, log-weights and last key
  are taken over. \<^verbatim>\<open>super().__init__(name)\<close> sets \<^verbatim>\<open>self.name\<close>.
\<close>

definition Empirical_init ::
  "'v world \<Rightarrow> 'v list option \<Rightarrow> real list option \<Rightarrow> real list option \<Rightarrow> string option \<Rightarrow>
   int \<Rightarrow> string \<Rightarrow> error + ('v world \<times> 'v empirical)" where
  "Empirical_init w vals log_weights weights file_name file_sync_timeout name =
     (let r = next_ref w;
          w0 = w\<lparr>val_lists := (val_lists w)(r + 1 := []),
                 lw_lists := (lw_lists w)(r := []),
                 next_ref := r + 2\<rparr>;
          e0 = \<lparr>e_finalized = False, e_closed = False, e_categorical = None,
                e_log_weights = r, e_length = 0, e_on_disk = False, e_values = r + 1,
                e_file_name = [], e_shelf_closed = True, e_file_last_key = - 1,
                e_file_sync_timeout = 0, e_file_sync_countdown = 0,
                e_mean = None, e_variance = None, e_mode = None, e_min = None, e_max = None,
                e_effective_sample_size = None, e_uniform_weights = False, e_name = name\<rparr>;
          opened =
            (case file_name of
               None \<Rightarrow> Inr (w0, e0)
             | Some fn \<Rightarrow>
                 (let e1 = e0\<lparr>e_on_disk := True, e_file_name := fn, e_shelf_closed := False,
                             e_file_sync_timeout := file_sync_timeout,
                             e_file_sync_countdown := file_sync_timeout\<rparr>
                  in case db_log_weights (files w fn) of
                       None \<Rightarrow> Inr (w0, e1)
                     | Some lws \<Rightarrow>
                         (case db_last_key (files w fn) of
                            None \<Rightarrow> Inl KeyError
                          | Some k \<Rightarrow>
                              Inr (w0\<lparr>lw_lists := (lw_lists w0)(r := lws)\<rparr>,
                                   e1\<lparr>e_name := (case db_name (files w fn) of
                                                    None \<Rightarrow> name | Some n \<Rightarrow> n),
                                      e_file_last_key := k,
                                      e_length := length lws\<rparr>))))
      in case opened of
           Inl err \<Rightarrow> Inl err
         | Inr (w1, e1) \<Rightarrow>
             (case vals of
                None \<Rightarrow> Inr (w1, e1)
              | Some vs \<Rightarrow>
                  if length vs > 0 then
                    (case add_sequence w1 e1 vs log_weights weights of
                       Inl err \<Rightarrow> Inl err
                     | Inr (w2, e2) \<Rightarrow> finalize w2 e2)
                  else Inr (w1, e1)))"

text \<open>\<^verbatim>\<open>__len__\<close> and the property \<^verbatim>\<open>length\<close>.\<close>

definition len :: "'v empirical \<Rightarrow> nat" where
  "len e = e_length e"

subsection \<open>close and the scoped release\<close>

text \<open>
  \<^verbatim>\<open>Shelf.close\<close> (the standard library): it runs \<^verbatim>\<open>Shelf.sync\<close> and releases the file; on a
  shelf that is closed already it writes nothing.
\<close>

definition shelf_close :: "'v world \<Rightarrow> 'v empirical \<Rightarrow> 'v world" where
  "shelf_close w e =
     (if e_shelf_closed e then w
      else put_file w e ((file_of w e)\<lparr>db_syncs := Suc (db_syncs (file_of w e))\<rparr>))"

definition close :: "'v world \<Rightarrow> 'v empirical \<Rightarrow> error + ('v world \<times> 'v empirical)" where
  "close w e =
     (if e_on_disk e then
        (case finalize w e of
           Inl err \<Rightarrow> Inl err
         | Inr (w1, e1) \<Rightarrow>
             if \<not> e_closed e1 then
               Inr (shelf_close w1 e1, e1\<lparr>e_shelf_closed := True, e_closed := True\<rparr>)
             else Inr (w1, e1))
      else Inr (w, e))"

text \<open>\<^verbatim>\<open>__exit__\<close> and \<^verbatim>\<open>__del__\<close> have the same body.\<close>

definition Empirical_exit :: "'v world \<Rightarrow> 'v empirical \<Rightarrow> error + ('v world \<times> 'v empirical)" where
  "Empirical_exit w e = (if \<not> e_closed e then close w e else Inr (w, e))"

subsection \<open>rename\<close>

definition rename ::
  "'v world \<Rightarrow> 'v empirical \<Rightarrow> string \<Rightarrow> error + ('v world \<times> 'v empirical)" where
  "rename w e name =
     (let e1 = e\<lparr>e_name := name\<rparr> in
      if e_on_disk e1 then
        (if e_shelf_closed e1 then Inl ValueError
         else Inr (put_file w e1 ((file_of w e1)\<lparr>db_name := Some (e_name e1)\<rparr>), e1))
      else Inr (w, e1))"

subsection \<open>Reading values\<close>

text \<open>
  \<^verbatim>\<open>_get_value\<close> on disk calls itself with \<^verbatim>\<open>self._length + index\<close> while the index is
  negative; with \<^verbatim>\<open>self._length == 0\<close> that recursion never ends (RecursionError).
\<close>

function get_value_on_disk :: "'v world \<Rightarrow> 'v empirical \<Rightarrow> int \<Rightarrow> error + 'v" where
  "get_value_on_disk w e index =
     (if index < 0 then
        (if e_length e = 0 then Inl RecursionError
         else get_value_on_disk w e (int (e_length e) + index))
      else shelf_getitem w e index)"
  by pat_completeness auto
termination
  by (relation "measure (\<lambda>(w, e, index). nat (- index))") auto

declare get_value_on_disk.simps [simp del]

definition get_value :: "'v world \<Rightarrow> 'v empirical \<Rightarrow> int \<Rightarrow> error + 'v" where
  "get_value w e index =
     (if e_on_disk e then get_value_on_disk w e index
      else list_getitem (val_lists w (e_values e)) index)"

text \<open>\<^verbatim>\<open>_get_log_weight\<close>: \<^verbatim>\<open>self._categorical.logits[index]\<close>.\<close>

definition get_log_weight :: "'v empirical \<Rightarrow> int \<Rightarrow> error + real" where
  "get_log_weight e index =
     (case e_categorical e of
        None \<Rightarrow> Inl AttributeError
      | Some c \<Rightarrow> list_getitem (logits c) index)"

fun shelf_values :: "'v world \<Rightarrow> 'v empirical \<Rightarrow> nat list \<Rightarrow> error + 'v list" where
  "shelf_values w e [] = Inr []"
| "shelf_values w e (i # is) =
     (case shelf_getitem w e (int i) of
        Inl err \<Rightarrow> Inl err
      | Inr v \<Rightarrow>
          (case shelf_values w e is of
             Inl err \<Rightarrow> Inl err
           | Inr vs \<Rightarrow> Inr (v # vs)))"

definition get_values :: "'v world \<Rightarrow> 'v empirical \<Rightarrow> error + 'v list" where
  "get_values w e =
     (case check_finalized e of
        Inl err \<Rightarrow> Inl err
      | Inr u \<Rightarrow>
          if e_on_disk e then shelf_values w e [0..<e_length e]
          else Inr (val_lists w (e_values e)))"

subsection \<open>copy\<close>

text \<open>
  The loop \<^verbatim>\<open>for i in range(n): ret.add(value=src._shelf[str(i)], log_weight=src._log_weights[i])\<close>
  of \<^verbatim>\<open>copy\<close> and of \<^verbatim>\<open>combine\<close>.
\<close>

fun add_from_shelf ::
  "'v world \<Rightarrow> 'v empirical \<Rightarrow> 'v empirical \<Rightarrow> nat list \<Rightarrow> error + ('v world \<times> 'v empirical)" where
  "add_from_shelf w src ret [] = Inr (w, ret)"
| "add_from_shelf w src ret (i # is) =
     (case shelf_getitem w src (int i) of
        Inl err \<Rightarrow> Inl err
      | Inr v \<Rightarrow>
          (case list_getitem (lw_lists w (e_log_weights src)) (int i) of
             Inl err \<Rightarrow> Inl err
           | Inr l \<Rightarrow>
               (case add w ret v (Some l) None of
                  Inl err \<Rightarrow> Inl err
                | Inr (w1, ret1) \<Rightarrow> add_from_shelf w1 src ret1 is)))"

text \<open>
  \<^verbatim>\<open>copy(file_name)\<close>. The constructor's defaults are \<^verbatim>\<open>file_sync_timeout=1000\<close> and
  \<^verbatim>\<open>name='Empirical'\<close>. From memory to memory the result is \<^verbatim>\<open>copy.copy(self)\<close>, a shallow
  copy: a new object with the attributes of \<^verbatim>\<open>self\<close>, the references to the two list
  objects among them.
\<close>

definition copy ::
  "'v world \<Rightarrow> 'v empirical \<Rightarrow> string option \<Rightarrow> error + ('v world \<times> 'v empirical)" where
  "copy w e file_name =
     (case check_finalized e of
        Inl err \<Rightarrow> Inl err
      | Inr u \<Rightarrow>
          if e_on_disk e then
            (case file_name of
               None \<Rightarrow>
                 (case get_values w e of
                    Inl err \<Rightarrow> Inl err
                  | Inr vs \<Rightarrow>
                      Empirical_init w (Some vs) (Some (lw_lists w (e_log_weights e))) None
                        None 1000 ''Empirical'')
             | Some fn \<Rightarrow>
                 (case Empirical_init w None None None (Some fn) 1000 ''Empirical'' of
                    Inl err \<Rightarrow> Inl err
                  | Inr (w1, ret) \<Rightarrow>
                      (case add_from_shelf w1 e ret [0..<e_length e] of
                         Inl err \<Rightarrow> Inl err
                       | Inr (w2, ret2) \<Rightarrow> finalize w2 ret2)))
          else
            (case file_name of
               None \<Rightarrow> Inr (w, e)
             | Some fn \<Rightarrow>
                 Empirical_init w (Some (val_lists w (e_values e)))
                   (Some (lw_lists w (e_log_weights e))) None (Some fn) 1000 ''Empirical''))"

subsection \<open>sample, filter, resample\<close>




text \<open>The loop of \<^verbatim>\<open>filter\<close> over \<^verbatim>\<open>range(self._length)\<close>, with the two lists it fills.\<close>

fun filter_loop ::
  "'v world \<Rightarrow> 'v empirical \<Rightarrow> ('v \<Rightarrow> bool) \<Rightarrow> nat list \<Rightarrow> 'v list \<Rightarrow> real list \<Rightarrow>
   error + ('v list \<times> real list)" where
  "filter_loop w e func [] filtered_values filtered_log_weights =
     Inr (filtered_values, filtered_log_weights)"
| "filter_loop w e func (i # is) filtered_values filtered_log_weights =
     (case get_value w e (int i) of
        Inl err \<Rightarrow> Inl err
      | Inr v \<Rightarrow>
          if func v then
            (case get_log_weight e (int i) of
               Inl err \<Rightarrow> Inl err
             | Inr l \<Rightarrow>
                 filter_loop w e func is (filtered_values @ [v]) (filtered_log_weights @ [l]))
          else filter_loop w e func is filtered_values filtered_log_weights)"

text \<open>
  \<^verbatim>\<open>filter(func)\<close>, with no further argument for the constructor. On an empty collection
  the result is \<^verbatim>\<open>self\<close>: the same object in the same store.
\<close>

definition filter_emp ::
  "'v world \<Rightarrow> 'v empirical \<Rightarrow> ('v \<Rightarrow> bool) \<Rightarrow> error + ('v world \<times> 'v empirical)" where
  "filter_emp w e func =
     (case check_finalized e of
        Inl err \<Rightarrow> Inl err
      | Inr u \<Rightarrow>
          if len e = 0 then Inr (w, e)
          else
            (case filter_loop w e func [0..<e_length e] [] [] of
               Inl err \<Rightarrow> Inl err
             | Inr (filtered_values, filtered_log_weights) \<Rightarrow>
                 Empirical_init w (Some filtered_values) (Some filtered_log_weights) None
                   None 1000 ''Empirical''))"



subsection \<open>Statistics\<close>

text \<open>
  The statistics return the value together with the object, whose cache they fill. The
  loops of \<^verbatim>\<open>expectation\<close> add \<^verbatim>\<open>func(value) * self._categorical.probs[i]\<close> over
  \<^verbatim>\<open>range(self._length)\<close>; \<open>rd\<close> reads the \<open>i\<close>-th value.
\<close>

fun expectation_loop ::
  "(int \<Rightarrow> error + 'v) \<Rightarrow> ('v \<Rightarrow> real) \<Rightarrow> real list \<Rightarrow> nat list \<Rightarrow> real \<Rightarrow> error + real" where
  "expectation_loop rd func ps [] ret = Inr ret"
| "expectation_loop rd func ps (i # is) ret =
     (case rd (int i) of
        Inl err \<Rightarrow> Inl err
      | Inr v \<Rightarrow>
          (case list_getitem ps (int i) of
             Inl err \<Rightarrow> Inl err
           | Inr p \<Rightarrow> expectation_loop rd func ps is (ret + func v * p)))"

definition expectation :: "'v world \<Rightarrow> 'v empirical \<Rightarrow> ('v \<Rightarrow> real) \<Rightarrow> error + real" where
  "expectation w e func =
     (case check_finalized e of
        Inl err \<Rightarrow> Inl err
      | Inr u \<Rightarrow>
          if e_on_disk e then
            (case e_categorical e of
               None \<Rightarrow> (if e_length e = 0 then Inr 0 else Inl AttributeError)
             | Some c \<Rightarrow>
                 expectation_loop (shelf_getitem w e) func (probs c) [0..<e_length e] 0)
          else if e_uniform_weights e then
            (if e_length e = 0 then Inl ZeroDivisionError
             else Inr (sum_list (map func (val_lists w (e_values e))) / real (e_length e)))
          else
            (case e_categorical e of
               None \<Rightarrow> (if e_length e = 0 then Inr 0 else Inl AttributeError)
             | Some c \<Rightarrow>
                 expectation_loop (list_getitem (val_lists w (e_values e))) func (probs c)
                   [0..<e_length e] 0))"

definition mean :: "real world \<Rightarrow> real empirical \<Rightarrow> error + (real empirical \<times> real)" where
  "mean w e =
     (case e_mean e of
        Some m \<Rightarrow> Inr (e, m)
      | None \<Rightarrow>
          (case expectation w e (\<lambda>x. x) of
             Inl err \<Rightarrow> Inl err
           | Inr m \<Rightarrow> Inr (e\<lparr>e_mean := Some m\<rparr>, m)))"

definition variance :: "real world \<Rightarrow> real empirical \<Rightarrow> error + (real empirical \<times> real)" where
  "variance w e =
     (case e_variance e of
        Some v \<Rightarrow> Inr (e, v)
      | None \<Rightarrow>
          (case mean w e of
             Inl err \<Rightarrow> Inl err
           | Inr (e1, m) \<Rightarrow>
               (case expectation w e1 (\<lambda>x. (x - m)\<^sup>2) of
                  Inl err \<Rightarrow> Inl err
                | Inr v \<Rightarrow> Inr (e1\<lparr>e_variance := Some v\<rparr>, v))))"

text \<open>
  \<^verbatim>\<open>util.to_tensor(self._log_weights).max(-1)\<close> gives the index of the largest log-weight,
  the first one among equals; an empty tensor has no maximum.
\<close>

fun argmax_from :: "real \<Rightarrow> nat \<Rightarrow> nat \<Rightarrow> real list \<Rightarrow> nat" where
  "argmax_from best best_index i [] = best_index"
| "argmax_from best best_index i (x # xs) =
     (if best < x then argmax_from x i (Suc i) xs
      else argmax_from best best_index (Suc i) xs)"

definition max_index :: "real list \<Rightarrow> error + nat" where
  "max_index xs = (case xs of [] \<Rightarrow> Inl IndexError | x # ys \<Rightarrow> Inr (argmax_from x 0 1 ys))"

definition mode :: "'v world \<Rightarrow> 'v empirical \<Rightarrow> error + ('v empirical \<times> 'v)" where
  "mode w e =
     (case check_finalized e of
        Inl err \<Rightarrow> Inl err
      | Inr u \<Rightarrow>
          (case e_mode e of
             Some m \<Rightarrow> Inr (e, m)
           | None \<Rightarrow>
               (case max_index (lw_lists w (e_log_weights e)) of
                  Inl err \<Rightarrow> Inl err
                | Inr i \<Rightarrow>
                    (case get_value w e (int i) of
                       Inl err \<Rightarrow> Inl err
                     | Inr m \<Rightarrow> Inr (e\<lparr>e_mode := Some m\<rparr>, m)))))"

definition effective_sample_size ::
  "'v world \<Rightarrow> 'v empirical \<Rightarrow> error + ('v empirical \<times> real)" where
  "effective_sample_size w e =
     (case check_finalized e of
        Inl err \<Rightarrow> Inl err
      | Inr u \<Rightarrow>
          (case e_effective_sample_size e of
             Some s \<Rightarrow> Inr (e, s)
           | None \<Rightarrow>
               (case e_categorical e of
                  None \<Rightarrow> Inl AttributeError
                | Some c \<Rightarrow>
                    (let s = 1 / sum_list (map (\<lambda>p. p\<^sup>2) (probs c))
                     in Inr (e\<lparr>e_effective_sample_size := Some s\<rparr>, s)))))"

text \<open>
  \<^verbatim>\<open>_find_min_max\<close>: whatever is raised inside its \<^verbatim>\<open>try\<close> (by \<^verbatim>\<open>get_values\<close>, or by
  \<^verbatim>\<open>sorted_values[0]\<close> on an empty list) becomes the RuntimeError of its \<^verbatim>\<open>except\<close>.
\<close>

definition find_min_max :: "real world \<Rightarrow> real empirical \<Rightarrow> error + real empirical" where
  "find_min_max w e =
     (case get_values w e of
        Inl err \<Rightarrow> Inl (RuntimeError msg_min_max)
      | Inr vs \<Rightarrow>
          (case sort vs of
             [] \<Rightarrow> Inl (RuntimeError msg_min_max)
           | x # xs \<Rightarrow> Inr (e\<lparr>e_min := Some x, e_max := Some (last (x # xs))\<rparr>)))"

definition min_emp :: "real world \<Rightarrow> real empirical \<Rightarrow> error + (real empirical \<times> real option)" where
  "min_emp w e =
     (case e_min e of
        Some m \<Rightarrow> Inr (e, Some m)
      | None \<Rightarrow>
          (case find_min_max w e of
             Inl err \<Rightarrow> Inl err
           | Inr e1 \<Rightarrow> Inr (e1, e_min e1)))"

definition max_emp :: "real world \<Rightarrow> real empirical \<Rightarrow> error + (real empirical \<times> real option)" where
  "max_emp w e =
     (case e_max e of
        Some m \<Rightarrow> Inr (e, Some m)
      | None \<Rightarrow>
          (case find_min_max w e of
             Inl err \<Rightarrow> Inl err
           | Inr e1 \<Rightarrow> Inr (e1, e_max e1)))"

subsection \<open>combine\<close>








subsection \<open>The lifecycle invariant\<close>

text \<open>
  What the constructor establishes and \<^verbatim>\<open>add\<close> and \<^verbatim>\<open>finalize\<close> keep: a finalized
  collection has a positive reported length (\<^verbatim>\<open>finalize\<close> raises on an empty one), and a
  collection that is not finalized has no cached statistic.
\<close>

definition lifecycle_inv :: "'v empirical \<Rightarrow> bool" where
  "lifecycle_inv e \<longleftrightarrow>
     (e_finalized e \<longrightarrow> 0 < e_length e) \<and>
     (\<not> e_finalized e \<longrightarrow>
        e_mean e = None \<and> e_variance e = None \<and> e_mode e = None \<and> e_min e = None \<and>
        e_max e = None \<and> e_effective_sample_size e = None)"

subsection \<open>What a finalized collection holds\<close>

text \<open>
  \<open>finalized_with w e vs ls\<close>: the collection is finalized and holds the values \<open>vs\<close>
  (what \<^verbatim>\<open>get_values\<close> reads) with the log-weights \<open>ls\<close>, its Categorical and its reported
  length being those that \<^verbatim>\<open>finalize\<close> computes from \<open>ls\<close>.
\<close>

definition finalized_with :: "'v world \<Rightarrow> 'v empirical \<Rightarrow> 'v list \<Rightarrow> real list \<Rightarrow> bool" where
  "finalized_with w e vs ls \<longleftrightarrow>
     e_finalized e \<and> get_values w e = Inr vs \<and> lw_lists w (e_log_weights e) = ls \<and>
     e_categorical e = Some (Categorical ls) \<and> length vs = len e \<and> length ls = len e"

subsection \<open>The entries a run of adds leaves in the shelf\<close>

text \<open>
  The entries under the integer keys after \<^verbatim>\<open>add\<close> has stored the values \<open>vs\<close> one after
  the other, \<open>k\<close> being the last key before: the first value goes to the key \<open>k + 1\<close>.
\<close>

fun store_items :: "(int \<Rightarrow> 'v option) \<Rightarrow> int \<Rightarrow> 'v list \<Rightarrow> (int \<Rightarrow> 'v option)" where
  "store_items items k [] = items"
| "store_items items k (v # vs) = store_items (items(k + 1 := Some v)) (k + 1) vs"

subsection \<open>Example collections\<close>

text \<open>
  The collection \<^verbatim>\<open>Empirical(values=[1, 2, 3], weights=[1, 1, 1])\<close> built in the empty
  store: its log-weights are the list object 0, its values the list object 1.
\<close>

definition ex_world_123 :: "real world" where
  "ex_world_123 = \<lparr>val_lists = (\<lambda>r. [])(1 := [1, 2, 3]), lw_lists = (\<lambda>r. [])(0 := [0, 0, 0]),
     next_ref = 2, files = (\<lambda>f. empty_dbm)\<rparr>"

definition ex_emp_123 :: "real empirical" where
  "ex_emp_123 = \<lparr>e_finalized = True, e_closed = False,
     e_categorical = Some (Categorical [0, 0, 0]),
     e_log_weights = 0, e_length = 3, e_on_disk = False, e_values = 1,
     e_file_name = [], e_shelf_closed = True, e_file_last_key = - 1,
     e_file_sync_timeout = 0, e_file_sync_countdown = 0,
     e_mean = None, e_variance = None, e_mode = None, e_min = None, e_max = None,
     e_effective_sample_size = None, e_uniform_weights = True, e_name = ''Empirical''\<rparr>"

text \<open>
  The persistent collection \<^verbatim>\<open>Empirical(file_name='db', file_sync_timeout=2)\<close> opened on
  a file that does not exist yet, in the empty store.
\<close>

definition ex_world_db :: "real world" where
  "ex_world_db = \<lparr>val_lists = (\<lambda>r. []), lw_lists = (\<lambda>r. []), next_ref = 2,
     files = (\<lambda>f. empty_dbm)\<rparr>"

definition ex_emp_db :: "real empirical" where
  "ex_emp_db = \<lparr>e_finalized = False, e_closed = False, e_categorical = None,
     e_log_weights = 0, e_length = 0, e_on_disk = True, e_values = 1,
     e_file_name = ''db'', e_shelf_closed = False, e_file_last_key = - 1,
     e_file_sync_timeout = 2, e_file_sync_countdown = 2,
     e_mean = None, e_variance = None, e_mode = None, e_min = None, e_max = None,
     e_effective_sample_size = None, e_uniform_weights = False, e_name = ''Empirical''\<rparr>"

text \<open>
  The store of the first example with a file \<^verbatim>\<open>'db'\<close> that an earlier persistent
  collection has left: one value 9 under the key \<^verbatim>\<open>'0'\<close>, log-weights \<^verbatim>\<open>[7]\<close>, name
  \<^verbatim>\<open>'old'\<close>.
\<close>

definition ex_world_123_old :: "real world" where
  "ex_world_123_old = ex_world_123\<lparr>files := (\<lambda>f. empty_dbm)
     (''db'' := \<lparr>db_name = Some ''old'', db_log_weights = Some [7], db_last_key = Some 0,
                 db_items = (\<lambda>k. None)(0 := Some 9), db_syncs = 1\<rparr>)\<rparr>"

section \<open>Properties\<close>

subsection \<open>The examples are what the constructor builds\<close>

lemma ex_emp_123_init:
  "Empirical_init empty_world (Some [1, 2, 3]) None (Some [1, 1, 1]) None 1000 ''Empirical'' =
     Inr (ex_world_123, ex_emp_123)"
  by (simp add: Empirical_init_def empty_world_def add_sequence_def add_def finalize_def
      Let_def ex_world_123_def ex_emp_123_def Categorical_def to_log_weight_def fun_upd_twist)

lemma ex_emp_db_init:
  "Empirical_init empty_world None None None (Some ''db'') 2 ''Empirical'' =
     Inr (ex_world_db, ex_emp_db)"
  by (simp add: Empirical_init_def empty_world_def empty_dbm_def Let_def ex_world_db_def
      ex_emp_db_def fun_upd_idem_iff)

subsection \<open>What finalize and add return\<close>

lemma finalize_in_memory:
  assumes "\<not> e_on_disk e" and "lw_lists w (e_log_weights e) \<noteq> []"
  shows "finalize w e =
     Inr (w, e\<lparr>e_categorical := Some (Categorical (lw_lists w (e_log_weights e))),
               e_uniform_weights := list_all (\<lambda>l. l = hd (lw_lists w (e_log_weights e)))
                                      (lw_lists w (e_log_weights e)),
               e_length := length (lw_lists w (e_log_weights e)),
               e_finalized := True\<rparr>)"
  using assms
  by (cases "lw_lists w (e_log_weights e)") (simp_all add: finalize_def Let_def Categorical_def)

lemma finalize_on_disk:
  assumes "e_on_disk e" and "\<not> e_shelf_closed e" and "lw_lists w (e_log_weights e) \<noteq> []"
  shows "finalize w e =
     Inr (w\<lparr>files := (files w)(e_file_name e := (files w (e_file_name e))
                 \<lparr>db_name := Some (e_name e),
                  db_log_weights := Some (lw_lists w (e_log_weights e)),
                  db_last_key := Some (e_file_last_key e),
                  db_syncs := Suc (db_syncs (files w (e_file_name e)))\<rparr>)\<rparr>,
          e\<lparr>e_categorical := Some (Categorical (lw_lists w (e_log_weights e))),
            e_uniform_weights := list_all (\<lambda>l. l = hd (lw_lists w (e_log_weights e)))
                                   (lw_lists w (e_log_weights e)),
            e_length := length (lw_lists w (e_log_weights e)),
            e_finalized := True\<rparr>)"
  using assms
  by (cases "lw_lists w (e_log_weights e)")
     (simp_all add: finalize_def Let_def Categorical_def put_file_def file_of_def)

lemma add_in_memory:
  assumes "\<not> e_on_disk e"
  shows "add w e v lw wt =
     Inr (w\<lparr>lw_lists := (lw_lists w)
                (e_log_weights e := lw_lists w (e_log_weights e) @ [to_log_weight lw wt]),
            val_lists := (val_lists w)(e_values e := val_lists w (e_values e) @ [v])\<rparr>,
          e\<lparr>e_finalized := False, e_mean := None, e_variance := None, e_mode := None,
            e_min := None, e_max := None, e_effective_sample_size := None\<rparr>)"
  using assms by (simp add: add_def Let_def)

lemma add_on_disk:
  assumes "e_on_disk e" and "\<not> e_shelf_closed e"
  shows "\<exists>w' e'. add w e v lw wt = Inr (w', e') \<and>
     e_on_disk e' \<and> \<not> e_shelf_closed e' \<and> e_closed e' = e_closed e \<and>
     e_file_name e' = e_file_name e \<and>
     e_log_weights e' = e_log_weights e \<and> e_values e' = e_values e \<and> e_name e' = e_name e \<and>
     e_file_sync_timeout e' = e_file_sync_timeout e \<and>
     e_file_last_key e' = e_file_last_key e + 1 \<and>
     e_file_sync_countdown e' =
       (if e_file_sync_countdown e = 1 then e_file_sync_timeout e
        else e_file_sync_countdown e - 1) \<and>
     e_finalized e' = (e_file_sync_countdown e = 1) \<and>
     e_length e' =
       (if e_file_sync_countdown e = 1 then Suc (length (lw_lists w (e_log_weights e)))
        else e_length e) \<and>
     lw_lists w' = (lw_lists w)
        (e_log_weights e := lw_lists w (e_log_weights e) @ [to_log_weight lw wt]) \<and>
     val_lists w' = val_lists w \<and> next_ref w' = next_ref w \<and>
     (\<forall>f. f \<noteq> e_file_name e \<longrightarrow> files w' f = files w f) \<and>
     db_items (files w' (e_file_name e)) =
       (db_items (files w (e_file_name e)))(e_file_last_key e + 1 := Some v) \<and>
     db_syncs (files w' (e_file_name e)) =
       (if e_file_sync_countdown e = 1 then Suc (db_syncs (files w (e_file_name e)))
        else db_syncs (files w (e_file_name e)))"
proof (cases "e_file_sync_countdown e = 1")
  case True
  then show ?thesis using assms
    by (simp add: add_def Let_def put_file_def file_of_def finalize_on_disk)
next
  case False
  then show ?thesis using assms
    by (simp add: add_def Let_def put_file_def file_of_def)
qed

subsection \<open>The uniform flag\<close>


lemma finalize_Inr_nonempty:
  assumes "finalize w e = Inr (w', e')"
  shows "lw_lists w (e_log_weights e) \<noteq> []"
  using assms
  by (cases "lw_lists w (e_log_weights e)") (simp_all add: finalize_def Let_def Categorical_def)

lemma finalize_Inr_open:
  assumes "finalize w e = Inr (w', e')" and "e_on_disk e"
  shows "\<not> e_shelf_closed e"
  using assms
  by (cases "lw_lists w (e_log_weights e)"; cases "e_shelf_closed e")
     (simp_all add: finalize_def Let_def Categorical_def)







subsection \<open>The reported length and the sync countdown\<close>






subsection \<open>No finalized collection is empty, no cache outlives an add\<close>

lemma finalize_lifecycle_inv:
  assumes "finalize w e = Inr (w', e')"
  shows "lifecycle_inv e'"
proof -
  note ne = finalize_Inr_nonempty[OF assms]
  show ?thesis
  proof (cases "e_on_disk e")
    case True
    show ?thesis
      using assms ne unfolding finalize_on_disk[OF True finalize_Inr_open[OF assms True] ne]
      by (auto simp: lifecycle_inv_def)
  next
    case False
    show ?thesis
      using assms ne unfolding finalize_in_memory[OF False ne]
      by (auto simp: lifecycle_inv_def)
  qed
qed

lemma add_lifecycle_inv:
  assumes "add w e v lw wt = Inr (w', e')"
  shows "lifecycle_inv e'"
proof (cases "e_on_disk e")
  case False
  then show ?thesis using assms by (auto simp: add_in_memory lifecycle_inv_def)
next
  case True
  show ?thesis
  proof (cases "e_file_sync_countdown e = 1")
    case c: True
    from assms True c obtain w2 e2 w3 e3 where "finalize w2 e2 = Inr (w3, e3)"
      and "e' = e3\<lparr>e_file_sync_countdown := e_file_sync_timeout e3\<rparr>"
      by (auto simp: add_def Let_def split: if_splits sum.splits)
    then show ?thesis
      using finalize_lifecycle_inv[of w2 e2 w3 e3] by (simp add: lifecycle_inv_def)
  next
    case c: False
    then show ?thesis using assms True
      by (auto simp: add_def Let_def lifecycle_inv_def split: if_splits)
  qed
qed

lemma add_sequence_log_weights_lifecycle_inv:
  "add_sequence_log_weights w e vs ls = Inr (w', e') \<Longrightarrow> lifecycle_inv e \<Longrightarrow> lifecycle_inv e'"
proof (induction w e vs ls rule: add_sequence_log_weights.induct)
  case (3 w e v vs l ls)
  then show ?case
    by (auto split: sum.splits dest: add_lifecycle_inv)
qed simp_all

lemma add_sequence_weights_lifecycle_inv:
  "add_sequence_weights w e vs ws = Inr (w', e') \<Longrightarrow> lifecycle_inv e \<Longrightarrow> lifecycle_inv e'"
proof (induction w e vs ws rule: add_sequence_weights.induct)
  case (3 w e v vs wt ws)
  then show ?case
    by (auto split: sum.splits dest: add_lifecycle_inv)
qed simp_all

lemma add_sequence_plain_lifecycle_inv:
  "add_sequence_plain w e vs = Inr (w', e') \<Longrightarrow> lifecycle_inv e \<Longrightarrow> lifecycle_inv e'"
proof (induction w e vs rule: add_sequence_plain.induct)
  case (2 w e v vs)
  then show ?case
    by (auto split: sum.splits dest: add_lifecycle_inv)
qed simp_all

lemma Empirical_init_lifecycle_inv:
  assumes "Empirical_init w vals lws wts file_name t nm = Inr (w', e')"
  shows "lifecycle_inv e'"
proof (cases "\<exists>vs. vals = Some vs \<and> 0 < length vs")
  case True
  then obtain w2 e2 where "finalize w2 e2 = Inr (w', e')"
    using assms
    by (auto simp: Empirical_init_def Let_def split: option.splits sum.splits if_splits)
  then show ?thesis by (rule finalize_lifecycle_inv)
next
  case False
  then show ?thesis
    using assms
    by (auto simp: Empirical_init_def Let_def lifecycle_inv_def
             split: option.splits sum.splits if_splits)
qed

text \<open>
  C9, as amended. On a collection of reported length zero (it is not finalized, by the
  invariant the constructor, \<^verbatim>\<open>add\<close> and \<^verbatim>\<open>finalize\<close> keep) every statistic fails: mean,
  variance, mode and effective sample size with the RuntimeError of \<^verbatim>\<open>_check_finalized\<close>,
  min and max with the RuntimeError of \<^verbatim>\<open>_find_min_max\<close>.
\<close>

theorem statistics_of_empty_fail:
  assumes "lifecycle_inv e" and "len e = 0"
  shows "mean w e = Inl (RuntimeError msg_not_finalized) \<and>
     variance w e = Inl (RuntimeError msg_not_finalized) \<and>
     mode w e = Inl (RuntimeError msg_not_finalized) \<and>
     effective_sample_size w e = Inl (RuntimeError msg_not_finalized) \<and>
     min_emp w e = Inl (RuntimeError msg_min_max) \<and>
     max_emp w e = Inl (RuntimeError msg_min_max)"
proof -
  from assms have nf: "\<not> e_finalized e" by (auto simp: lifecycle_inv_def len_def)
  with assms have c: "e_mean e = None" "e_variance e = None" "e_min e = None" "e_max e = None"
    by (auto simp: lifecycle_inv_def)
  have m: "mean w e = Inl (RuntimeError msg_not_finalized)"
    using nf c by (simp add: mean_def expectation_def check_finalized_def)
  have g: "get_values w e = Inl (RuntimeError msg_not_finalized)"
    using nf by (simp add: get_values_def check_finalized_def)
  show ?thesis
    using nf c m g
    by (simp add: variance_def mode_def effective_sample_size_def min_emp_def max_emp_def
        find_min_max_def check_finalized_def)
qed

theorem statistics_of_empty_fail_witness:
  "\<exists>w0 e0. Empirical_init (empty_world :: real world) (Some []) None None None 1000 ''Empirical''
       = Inr (w0, e0) \<and> len e0 = 0 \<and>
     mean w0 e0 = Inl (RuntimeError msg_not_finalized) \<and>
     max_emp w0 e0 = Inl (RuntimeError msg_min_max)"
proof -
  obtain w0 e0 where i: "Empirical_init (empty_world :: real world) (Some []) None None None 1000 ''Empirical''
       = Inr (w0, e0)" and l: "len e0 = 0"
    by (simp add: Empirical_init_def Let_def len_def)
  show ?thesis
    using statistics_of_empty_fail[OF Empirical_init_lifecycle_inv[OF i] l, of w0] i l
    by simp
qed

theorem statistics_of_empty_fail_counterexample:
  "\<exists>w0 e0. Empirical_init (empty_world :: real world) None None None None 1000 ''Empirical''
       = Inr (w0, e0) \<and> len e0 = 0 \<and>
     mean w0 e0 = Inl (RuntimeError ''Empirical not finalized. Call finalize first.'') \<and>
     min_emp w0 e0 =
       Inl (RuntimeError msg_min_max)"
  by (simp add: Empirical_init_def Let_def len_def mean_def expectation_def check_finalized_def
      min_emp_def find_min_max_def get_values_def msg_not_finalized_def msg_min_max_def)

subsection \<open>combine\<close>








subsection \<open>close, called twice\<close>

lemma close_again_raises:
  assumes "e_on_disk e" and "e_closed e \<longleftrightarrow> e_shelf_closed e"
    and "close w e = Inr (w1, e1)"
  shows "close w1 e1 = Inl ValueError"
proof -
  obtain w0 e0 where f: "finalize w e = Inr (w0, e0)"
    using assms(1,3) by (cases "finalize w e") (auto simp: close_def)
  note ne = finalize_Inr_nonempty[OF f]
  note op = finalize_Inr_open[OF f assms(1)]
  have c: "\<not> e_closed e" using op assms(2) by simp
  have "e_on_disk e1 \<and> e_shelf_closed e1 \<and> lw_lists w1 (e_log_weights e1) \<noteq> []"
    using assms(1,3) c ne op unfolding close_def finalize_on_disk[OF assms(1) op ne]
    by (auto simp: shelf_close_def put_file_def file_of_def)
  then show ?thesis
    by (cases "lw_lists w1 (e_log_weights e1)")
       (simp_all add: close_def finalize_def Let_def Categorical_def)
qed

text \<open>
  C2. A persistent collection with one value, closed twice: the first \<^verbatim>\<open>close\<close> succeeds
  (\<^verbatim>\<open>finalize\<close> syncs, \<^verbatim>\<open>Shelf.close\<close> syncs once more), the second raises ValueError, from the
  \<^verbatim>\<open>finalize\<close> that \<^verbatim>\<open>close\<close> runs before it tests \<^verbatim>\<open>_closed\<close>. After \<^verbatim>\<open>__exit__\<close>, which tests
  \<^verbatim>\<open>_closed\<close> first, nothing is raised.
\<close>

theorem close_twice_raises:
  "\<exists>w1 e1 w2 e2.
     add ex_world_db ex_emp_db 5 None None = Inr (w1, e1) \<and>
     close w1 e1 = Inr (w2, e2) \<and> e_closed e2 \<and> db_syncs (file_of w2 e2) = 2 \<and>
     close w2 e2 = Inl ValueError \<and>
     Empirical_exit w2 e2 = Inr (w2, e2)"
  by (simp add: ex_world_db_def ex_emp_db_def empty_dbm_def add_def Let_def to_log_weight_def
      close_def finalize_def Categorical_def put_file_def file_of_def shelf_close_def
      Empirical_exit_def)

subsection \<open>copy from memory to memory\<close>

text \<open>
  C7. The copy of an in-memory collection made by \<^verbatim>\<open>copy()\<close> shares the two list objects
  with the original: an \<^verbatim>\<open>add\<close> on the copy appends to the values and the log-weights of
  the original, an \<^verbatim>\<open>add\<close> on the original to those of the copy. The copy made by
  \<^verbatim>\<open>copy(file_name)\<close> has lists of its own.
\<close>

theorem copy_in_memory_aliases:
  "\<exists>w1 c w2 c2 w3 e3.
     copy ex_world_123 ex_emp_123 None = Inr (w1, c) \<and>
     val_lists w1 (e_values ex_emp_123) = [1, 2, 3] \<and>
     lw_lists w1 (e_log_weights ex_emp_123) = [0, 0, 0] \<and>
     add w1 c 4 (Some 5) None = Inr (w2, c2) \<and>
     val_lists w2 (e_values ex_emp_123) = [1, 2, 3, 4] \<and>
     lw_lists w2 (e_log_weights ex_emp_123) = [0, 0, 0, 5] \<and>
     add w1 ex_emp_123 4 (Some 5) None = Inr (w3, e3) \<and>
     val_lists w3 (e_values c) = [1, 2, 3, 4] \<and>
     lw_lists w3 (e_log_weights c) = [0, 0, 0, 5]"
  by (simp add: ex_world_123_def ex_emp_123_def copy_def check_finalized_def add_def Let_def
      to_log_weight_def)

subsection \<open>The constructor in memory\<close>

lemma add_sequence_log_weights_in_memory:
  assumes "\<not> e_on_disk e" and "length vs \<le> length ls"
  shows "\<exists>w' e'. add_sequence_log_weights w e vs ls = Inr (w', e') \<and>
     e' = (if vs = [] then e
           else e\<lparr>e_finalized := False, e_mean := None, e_variance := None, e_mode := None,
                  e_min := None, e_max := None, e_effective_sample_size := None\<rparr>) \<and>
     lw_lists w' = (lw_lists w)
       (e_log_weights e := lw_lists w (e_log_weights e) @ take (length vs) ls) \<and>
     val_lists w' = (val_lists w)(e_values e := val_lists w (e_values e) @ vs) \<and>
     next_ref w' = next_ref w \<and> files w' = files w"
  using assms
proof (induction vs arbitrary: w e ls)
  case Nil
  then show ?case by simp
next
  case (Cons v vs)
  then obtain l ls' where ls: "ls = l # ls'" by (cases ls) auto
  let ?w1 = "w\<lparr>lw_lists := (lw_lists w)
                (e_log_weights e := lw_lists w (e_log_weights e) @ [to_log_weight (Some l) None]),
            val_lists := (val_lists w)(e_values e := val_lists w (e_values e) @ [v])\<rparr>"
  let ?e1 = "e\<lparr>e_finalized := False, e_mean := None, e_variance := None, e_mode := None,
            e_min := None, e_max := None, e_effective_sample_size := None\<rparr>"
  have a: "add w e v (Some l) None = Inr (?w1, ?e1)"
    using Cons.prems(1) by (rule add_in_memory)
  have "\<not> e_on_disk ?e1" "length vs \<le> length ls'"
    using Cons.prems ls by simp_all
  from Cons.IH[OF this, of ?w1] show ?case
    by (elim exE conjE) (simp add: a ls to_log_weight_def fun_eq_iff)
qed


lemma Empirical_init_in_memory_log_weights:
  assumes "vs \<noteq> []" and "length vs \<le> length ls"
  shows "\<exists>w' e'. Empirical_init w (Some vs) (Some ls) wts None t nm = Inr (w', e') \<and>
     \<not> e_on_disk e' \<and> e_finalized e' \<and> e_name e' = nm \<and>
     e_log_weights e' = next_ref w \<and> e_values e' = next_ref w + 1 \<and>
     lw_lists w' = (lw_lists w)(next_ref w := take (length vs) ls) \<and>
     val_lists w' = (val_lists w)(next_ref w + 1 := vs) \<and>
     next_ref w' = next_ref w + 2 \<and> files w' = files w \<and>
     e_length e' = length vs \<and>
     e_categorical e' = Some (Categorical (take (length vs) ls)) \<and>
     e_uniform_weights e' = list_all (\<lambda>l. l = hd ls) (take (length vs) ls) \<and>
     e_mean e' = None \<and> e_variance e' = None"
proof -
  let ?r = "next_ref w"
  let ?w0 = "w\<lparr>val_lists := (val_lists w)(?r + 1 := []),
                 lw_lists := (lw_lists w)(?r := []),
                 next_ref := ?r + 2\<rparr>"
  let ?e0 = "\<lparr>e_finalized = False, e_closed = False, e_categorical = None,
                e_log_weights = ?r, e_length = 0, e_on_disk = False, e_values = ?r + 1,
                e_file_name = [], e_shelf_closed = True, e_file_last_key = - 1,
                e_file_sync_timeout = 0, e_file_sync_countdown = 0,
                e_mean = None, e_variance = None, e_mode = None, e_min = None, e_max = None,
                e_effective_sample_size = None, e_uniform_weights = False, e_name = nm\<rparr>
             :: 'a empirical"
  have i: "Empirical_init w (Some vs) (Some ls) wts None t nm =
      (case add_sequence_log_weights ?w0 ?e0 vs ls of
         Inl err \<Rightarrow> Inl err | Inr (w2, e2) \<Rightarrow> finalize w2 e2)"
    using assms(1) by (simp add: Empirical_init_def Let_def add_sequence_def)
  have "\<not> e_on_disk ?e0" by simp
  from add_sequence_log_weights_in_memory[OF this assms(2), of ?w0]
  obtain w2 e2 where s: "add_sequence_log_weights ?w0 ?e0 vs ls = Inr (w2, e2)"
    and e2: "e2 = ?e0"
    and p: "lw_lists w2 = (lw_lists ?w0)(?r := lw_lists ?w0 ?r @ take (length vs) ls)"
     "val_lists w2 = (val_lists ?w0)(?r + 1 := val_lists ?w0 (?r + 1) @ vs)"
     "next_ref w2 = ?r + 2" "files w2 = files w"
    using assms(1) by (elim exE conjE) simp
  have l: "lw_lists w2 (e_log_weights e2) = take (length vs) ls"
    using p e2 by simp
  have ne: "lw_lists w2 (e_log_weights e2) \<noteq> []"
    using l assms by (cases vs; cases ls) auto
  have h: "hd (take (length vs) ls) = hd ls"
    using assms by (cases vs; cases ls) auto
  have d: "\<not> e_on_disk e2" using e2 by simp
  show ?thesis
    unfolding i s using finalize_in_memory[OF d ne] p assms(2)
    by (simp add: l h e2)
qed


subsection \<open>Reading the values of a finalized collection\<close>

lemma shelf_values_nth:
  "shelf_values w e ks = Inr vs \<Longrightarrow>
     length vs = length ks \<and> (\<forall>j < length ks. shelf_getitem w e (int (ks ! j)) = Inr (vs ! j))"
proof (induction ks arbitrary: vs)
  case Nil
  then show ?case by simp
next
  case (Cons k ks)
  from Cons.prems obtain v vs' where g: "shelf_getitem w e (int k) = Inr v"
    and r: "shelf_values w e ks = Inr vs'" and vs: "vs = v # vs'"
    by (auto split: sum.splits)
  from Cons.IH[OF r] show ?case
    using g vs by (auto simp: nth_Cons split: nat.splits)
qed

lemma get_value_of_get_values:
  assumes "get_values w e = Inr vs" and "length vs = e_length e" and "i < e_length e"
  shows "get_value w e (int i) = Inr (vs ! i)"
proof (cases "e_on_disk e")
  case True
  with assms(1) have "shelf_values w e [0..<e_length e] = Inr vs"
    by (auto simp: get_values_def split: sum.splits)
  from shelf_values_nth[OF this] assms(3)
  have "shelf_getitem w e (int i) = Inr (vs ! i)" by auto
  then show ?thesis
    using True by (simp add: get_value_def get_value_on_disk.simps)
next
  case False
  with assms(1) have "val_lists w (e_values e) = vs"
    by (auto simp: get_values_def split: sum.splits)
  then show ?thesis
    using False assms(2,3) by (simp add: get_value_def list_getitem_def)
qed

subsection \<open>filter\<close>

lemma filter_loop_result:
  assumes "\<forall>i \<in> set ks. get_value w e (int i) = Inr (vs ! i) \<and>
                         get_log_weight e (int i) = Inr (ls ! i)"
  shows "filter_loop w e func ks fv flw =
     Inr (fv @ map (\<lambda>i. vs ! i) (filter (\<lambda>i. func (vs ! i)) ks),
          flw @ map (\<lambda>i. ls ! i) (filter (\<lambda>i. func (vs ! i)) ks))"
  using assms
  by (induction ks arbitrary: fv flw) simp_all

lemma kept_values:
  "map (\<lambda>i. vs ! i) (filter (\<lambda>i. func (vs ! i)) [0..<length vs]) = filter func vs"
proof -
  have "filter func (map (\<lambda>i. vs ! i) [0..<length vs]) =
      map (\<lambda>i. vs ! i) (filter (\<lambda>i. func (vs ! i)) [0..<length vs])"
    by (simp add: filter_map comp_def)
  then show ?thesis by (simp add: map_nth)
qed

lemma kept_log_weights:
  assumes "length ls = length vs"
  shows "map (\<lambda>i. ls ! i) (filter (\<lambda>i. func (vs ! i)) [0..<length vs]) =
     map snd (filter (\<lambda>(v, l). func v) (zip vs ls))"
proof -
  have z: "zip vs ls = map (\<lambda>i. (vs ! i, ls ! i)) [0..<length vs]"
    using assms by (intro nth_equalityI) simp_all
  show ?thesis
    unfolding z by (simp add: filter_map comp_def)
qed

lemma filter_emp_nonempty:
  assumes h: "finalized_with w e vs ls" and pos: "0 < len e"
  shows "\<exists>w' e'. filter_emp w e func = Inr (w', e') \<and>
     \<not> e_on_disk e' \<and> e_name e' = ''Empirical'' \<and>
     e_values e' = next_ref w + 1 \<and> e_log_weights e' = next_ref w \<and>
     val_lists w' = (val_lists w)(next_ref w + 1 := filter func vs) \<and>
     lw_lists w' = (lw_lists w)
        (next_ref w := map snd (filter (\<lambda>(v, l). func v) (zip vs ls))) \<and>
     files w' = files w \<and>
     e_finalized e' = (filter func vs \<noteq> []) \<and>
     e_mean e' = None \<and>
     (filter func vs \<noteq> [] \<longrightarrow>
        finalized_with w' e' (filter func vs)
          (map snd (filter (\<lambda>(v, l). func v) (zip vs ls))) \<and>
        e_uniform_weights e' =
          list_all (\<lambda>l. l = hd (map snd (filter (\<lambda>(v, l). func v) (zip vs ls))))
            (map snd (filter (\<lambda>(v, l). func v) (zip vs ls))))"
proof -
  let ?kv = "filter func vs"
  let ?kl = "map snd (filter (\<lambda>(v, l). func v) (zip vs ls))"
  from h have fin: "e_finalized e" and gv: "get_values w e = Inr vs"
    and cat: "e_categorical e = Some (Categorical ls)"
    and len: "length vs = len e" "length ls = len e"
    by (simp_all add: finalized_with_def)
  have rd: "\<forall>i \<in> set [0..<e_length e]. get_value w e (int i) = Inr (vs ! i) \<and>
                         get_log_weight e (int i) = Inr (ls ! i)"
    using get_value_of_get_values[OF gv] cat len
    by (simp add: len_def get_log_weight_def list_getitem_def Categorical_def)
  have n: "e_length e = length vs" using len by (simp add: len_def)
  have ll: "length ls = length vs" using len by simp
  have loop: "filter_loop w e func [0..<e_length e] [] [] = Inr (?kv, ?kl)"
    using filter_loop_result[OF rd, of func "[]" "[]"]
    by (simp add: n kept_values kept_log_weights[OF ll])
  have f: "filter_emp w e func =
      Empirical_init w (Some ?kv) (Some ?kl) None None 1000 ''Empirical''"
    using fin pos by (simp add: filter_emp_def check_finalized_def loop)
  have kl: "length ?kl = length ?kv"
    using ll by (induction vs ls rule: list_induct2') auto
  show ?thesis
  proof (cases "?kv = []")
    case True
    then have "?kl = []" using kl by simp
    then show ?thesis
      unfolding f using True
      by (simp add: Empirical_init_def Let_def)
  next
    case False
    have "length ?kv \<le> length ?kl" using kl by simp
    from Empirical_init_in_memory_log_weights[OF False this, of w None 1000 "''Empirical''"]
    show ?thesis
      unfolding f using False kl
      by (elim exE conjE)
         (simp add: len_def finalized_with_def get_values_def check_finalized_def)
  qed
qed

text \<open>
  C3, as amended. On a finalized collection holding the values \<open>vs\<close> with log-weights
  \<open>ls\<close>, \<^verbatim>\<open>filter(func)\<close> returns the object itself in the unchanged store when the reported
  length is zero; otherwise a new in-memory collection (two new list objects) holding
  the values that satisfy \<open>func\<close>, in their order, each with the log-weight it had. That
  collection is finalized exactly when some value satisfies \<open>func\<close>. Filtering
  \<^verbatim>\<open>[1, 2, 3]\<close> with weights \<^verbatim>\<open>[1, 1, 1]\<close> by \<^verbatim>\<open>v > 1\<close> gives length 2, values \<^verbatim>\<open>[2, 3]\<close>, log-weights
  \<^verbatim>\<open>[0, 0]\<close> and mean 2.5.
\<close>

theorem filter_emp_spec:
  assumes "finalized_with w e vs ls"
  shows "(len e = 0 \<longrightarrow> filter_emp w e func = Inr (w, e)) \<and>
     (0 < len e \<longrightarrow>
        (\<exists>w' e'. filter_emp w e func = Inr (w', e') \<and> \<not> e_on_disk e' \<and>
           e_values e' = next_ref w + 1 \<and> e_log_weights e' = next_ref w \<and>
           val_lists w' (e_values e') = filter func vs \<and>
           lw_lists w' (e_log_weights e') =
             map snd (filter (\<lambda>(v, l). func v) (zip vs ls)) \<and>
           e_finalized e' = (filter func vs \<noteq> []) \<and>
           (filter func vs \<noteq> [] \<longrightarrow> len e' = length (filter func vs)))) \<and>
     (\<exists>w' e' e''. filter_emp ex_world_123 ex_emp_123 (\<lambda>v. 1 < v) = Inr (w', e') \<and>
        len e' = 2 \<and> val_lists w' (e_values e') = [2, 3] \<and>
        lw_lists w' (e_log_weights e') = [0, 0] \<and> mean w' e' = Inr (e'', 5 / 2))"
proof (intro conjI impI)
  assume "len e = 0"
  then show "filter_emp w e func = Inr (w, e)"
    using assms by (simp add: filter_emp_def finalized_with_def check_finalized_def)
next
  assume pos: "0 < len e"
  from filter_emp_nonempty[OF assms pos, of func]
  show "\<exists>w' e'. filter_emp w e func = Inr (w', e') \<and> \<not> e_on_disk e' \<and>
           e_values e' = next_ref w + 1 \<and> e_log_weights e' = next_ref w \<and>
           val_lists w' (e_values e') = filter func vs \<and>
           lw_lists w' (e_log_weights e') =
             map snd (filter (\<lambda>(v, l). func v) (zip vs ls)) \<and>
           e_finalized e' = (filter func vs \<noteq> []) \<and>
           (filter func vs \<noteq> [] \<longrightarrow> len e' = length (filter func vs))"
    by (elim exE conjE) (simp add: finalized_with_def)
next
  have h: "finalized_with ex_world_123 ex_emp_123 [1, 2, 3] [0, 0, 0]"
    by (simp add: finalized_with_def ex_world_123_def ex_emp_123_def get_values_def
        check_finalized_def len_def)
  have pos: "0 < len ex_emp_123" by (simp add: len_def ex_emp_123_def)
  from filter_emp_nonempty[OF h pos, of "\<lambda>v. 1 < v"]
  obtain w' e' where f: "filter_emp ex_world_123 ex_emp_123 (\<lambda>v. 1 < v) = Inr (w', e')"
    and p: "\<not> e_on_disk e'" "e_finalized e'" "e_mean e' = None" "e_uniform_weights e'"
       "len e' = 2" "val_lists w' (e_values e') = [2, 3]"
       "lw_lists w' (e_log_weights e') = [0, 0]"
    by (elim exE conjE) (simp add: finalized_with_def)
  have "mean w' e' = Inr (e'\<lparr>e_mean := Some (5 / 2)\<rparr>, 5 / 2)"
    using p by (simp add: mean_def expectation_def check_finalized_def len_def)
  with f p show "\<exists>w' e' e''. filter_emp ex_world_123 ex_emp_123 (\<lambda>v. 1 < v) = Inr (w', e') \<and>
        len e' = 2 \<and> val_lists w' (e_values e') = [2, 3] \<and>
        lw_lists w' (e_log_weights e') = [0, 0] \<and> mean w' e' = Inr (e'', 5 / 2)"
    by simp
qed

theorem filter_emp_spec_witness:
  "\<exists>w' e'. filter_emp ex_world_123 ex_emp_123 (\<lambda>v. v \<noteq> 2) = Inr (w', e') \<and>
     val_lists w' (e_values e') = [1, 3] \<and> lw_lists w' (e_log_weights e') = [0, 0] \<and>
     e_finalized e'"
proof -
  have h: "finalized_with ex_world_123 ex_emp_123 [1, 2, 3] [0, 0, 0]"
    by (simp add: finalized_with_def ex_world_123_def ex_emp_123_def get_values_def
        check_finalized_def len_def)
  have pos: "0 < len ex_emp_123" by (simp add: len_def ex_emp_123_def)
  from filter_emp_spec[OF h, of "\<lambda>v. v \<noteq> 2"] pos show ?thesis
    by auto
qed

theorem filter_emp_spec_counterexample:
  "\<exists>w' e'. e_finalized ex_emp_123 \<and> len ex_emp_123 = 3 \<and>
     filter_emp ex_world_123 ex_emp_123 (\<lambda>v. 5 < v) = Inr (w', e') \<and>
     val_lists w' (e_values e') = [] \<and> \<not> e_finalized e'"
proof -
  have h: "finalized_with ex_world_123 ex_emp_123 [1, 2, 3] [0, 0, 0]"
    by (simp add: finalized_with_def ex_world_123_def ex_emp_123_def get_values_def
        check_finalized_def len_def)
  have pos: "0 < len ex_emp_123" "len ex_emp_123 = 3" "e_finalized ex_emp_123"
    by (simp_all add: len_def ex_emp_123_def)
  from filter_emp_nonempty[OF h pos(1), of "\<lambda>v. 5 < v"] pos show ?thesis
    by auto
qed

subsection \<open>resample\<close>






subsection \<open>The constructor on disk\<close>

lemma store_items_before:
  "j \<le> k \<Longrightarrow> store_items items k vs j = items j"
  by (induction vs arbitrary: items k) simp_all

lemma store_items_nth:
  "i < length vs \<Longrightarrow> store_items items k vs (k + 1 + int i) = Some (vs ! i)"
proof (induction vs arbitrary: items k i)
  case Nil
  then show ?case by simp
next
  case (Cons v vs)
  show ?case
  proof (cases i)
    case 0
    then show ?thesis by (simp add: store_items_before)
  next
    case (Suc j)
    with Cons.prems have "j < length vs" by simp
    from Cons.IH[OF this, of "items(k + 1 := Some v)" "k + 1"]
    have "store_items (items(k + 1 := Some v)) (k + 1) vs (k + 1 + 1 + int j) = Some (vs ! j)" .
    moreover have "k + 1 + int i = k + 1 + 1 + int j" using Suc by simp
    ultimately show ?thesis using Suc by (simp only: store_items.simps nth_Cons_Suc)
  qed
qed

lemma add_sequence_log_weights_on_disk:
  assumes "e_on_disk e" and "\<not> e_shelf_closed e" and "length vs \<le> length ls"
  shows "\<exists>w' e'. add_sequence_log_weights w e vs ls = Inr (w', e') \<and>
     e_on_disk e' \<and> \<not> e_shelf_closed e' \<and> e_file_name e' = e_file_name e \<and>
     e_log_weights e' = e_log_weights e \<and> e_name e' = e_name e \<and>
     e_file_last_key e' = e_file_last_key e + int (length vs) \<and>
     lw_lists w' = (lw_lists w)
       (e_log_weights e := lw_lists w (e_log_weights e) @ take (length vs) ls) \<and>
     val_lists w' = val_lists w \<and> next_ref w' = next_ref w \<and>
     db_items (files w' (e_file_name e)) =
       store_items (db_items (files w (e_file_name e))) (e_file_last_key e) vs"
  using assms
proof (induction vs arbitrary: w e ls)
  case Nil
  then show ?case by simp
next
  case (Cons v vs)
  then obtain l ls' where ls: "ls = l # ls'" by (cases ls) auto
  from add_on_disk[OF Cons.prems(1,2), of w v "Some l" None]
  obtain w1 e1 where a: "add w e v (Some l) None = Inr (w1, e1)"
    and p: "e_on_disk e1" "\<not> e_shelf_closed e1" "e_file_name e1 = e_file_name e"
      "e_log_weights e1 = e_log_weights e" "e_name e1 = e_name e"
      "e_file_last_key e1 = e_file_last_key e + 1"
      "lw_lists w1 = (lw_lists w)
         (e_log_weights e := lw_lists w (e_log_weights e) @ [to_log_weight (Some l) None])"
      "val_lists w1 = val_lists w" "next_ref w1 = next_ref w"
      "db_items (files w1 (e_file_name e)) =
         (db_items (files w (e_file_name e)))(e_file_last_key e + 1 := Some v)"
    by blast
  have "length vs \<le> length ls'" using Cons.prems ls by simp
  from Cons.IH[OF p(1,2) this, of w1] show ?case
    by (elim exE conjE) (simp add: a ls p to_log_weight_def fun_eq_iff fun_upd_def)
qed

subsection \<open>copy to a file and back\<close>

lemma shelf_values_map:
  assumes "\<forall>k \<in> set ks. shelf_getitem w e (int k) = Inr (f k)"
  shows "shelf_values w e ks = Inr (map f ks)"
  using assms by (induction ks) simp_all

lemma Empirical_init_on_disk_fresh:
  assumes "vs \<noteq> []" and "length vs \<le> length ls" and "db_log_weights (files w fn) = None"
  shows "\<exists>w' e'. Empirical_init w (Some vs) (Some ls) wts (Some fn) t nm = Inr (w', e') \<and>
     e_on_disk e' \<and> \<not> e_shelf_closed e' \<and> e_file_name e' = fn \<and> e_name e' = nm \<and>
     e_log_weights e' = next_ref w \<and> e_finalized e' \<and> e_length e' = length vs \<and>
     e_categorical e' = Some (Categorical (take (length vs) ls)) \<and>
     lw_lists w' = (lw_lists w)(next_ref w := take (length vs) ls) \<and>
     val_lists w' = (val_lists w)(next_ref w + 1 := []) \<and>
     next_ref w' = next_ref w + 2 \<and>
     (\<forall>i < length vs. db_items (files w' fn) (int i) = Some (vs ! i))"
proof -
  let ?r = "next_ref w"
  let ?w0 = "w\<lparr>val_lists := (val_lists w)(?r + 1 := []),
                 lw_lists := (lw_lists w)(?r := []),
                 next_ref := ?r + 2\<rparr>"
  let ?e1 = "\<lparr>e_finalized = False, e_closed = False, e_categorical = None,
                e_log_weights = ?r, e_length = 0, e_on_disk = True, e_values = ?r + 1,
                e_file_name = fn, e_shelf_closed = False, e_file_last_key = - 1,
                e_file_sync_timeout = t, e_file_sync_countdown = t,
                e_mean = None, e_variance = None, e_mode = None, e_min = None, e_max = None,
                e_effective_sample_size = None, e_uniform_weights = False, e_name = nm\<rparr>
             :: 'a empirical"
  have i: "Empirical_init w (Some vs) (Some ls) wts (Some fn) t nm =
      (case add_sequence_log_weights ?w0 ?e1 vs ls of
         Inl err \<Rightarrow> Inl err | Inr (w2, e2) \<Rightarrow> finalize w2 e2)"
    using assms(1,3) by (simp add: Empirical_init_def Let_def add_sequence_def)
  have d: "e_on_disk ?e1" and o: "\<not> e_shelf_closed ?e1" by simp_all
  from add_sequence_log_weights_on_disk[OF d o assms(2), of ?w0]
  obtain w2 e2 where s: "add_sequence_log_weights ?w0 ?e1 vs ls = Inr (w2, e2)"
    and p: "e_on_disk e2" "\<not> e_shelf_closed e2" "e_file_name e2 = fn"
      "e_log_weights e2 = ?r" "e_name e2 = nm"
    and lw: "lw_lists w2 = (lw_lists ?w0)(?r := lw_lists ?w0 ?r @ take (length vs) ls)"
    and rest: "val_lists w2 = val_lists ?w0" "next_ref w2 = next_ref ?w0"
    and it: "db_items (files w2 fn) = store_items (db_items (files ?w0 fn)) (- 1) vs"
    by (elim exE conjE) simp
  have l: "lw_lists w2 (e_log_weights e2) = take (length vs) ls"
    using lw p by simp
  have ne: "lw_lists w2 (e_log_weights e2) \<noteq> []"
    using l assms by (cases vs; cases ls) auto
  have items: "\<forall>i < length vs. db_items (files w2 fn) (int i) = Some (vs ! i)"
  proof (intro allI impI)
    fix i assume "i < length vs"
    from store_items_nth[OF this, of "db_items (files ?w0 fn)" "- 1"]
    show "db_items (files w2 fn) (int i) = Some (vs ! i)"
      unfolding it by simp
  qed
  show ?thesis
    unfolding i s using finalize_on_disk[OF p(1,2) ne] p l lw rest items assms(2)
    by simp
qed

lemma get_values_on_disk:
  assumes "e_on_disk e" and "\<not> e_shelf_closed e" and "e_finalized e"
    and "e_length e = length vs"
    and "\<forall>i < length vs. db_items (files w (e_file_name e)) (int i) = Some (vs ! i)"
  shows "get_values w e = Inr vs"
proof -
  have "\<forall>k \<in> set [0..<length vs]. shelf_getitem w e (int k) = Inr (vs ! k)"
    using assms(2,5) by (simp add: shelf_getitem_def file_of_def)
  from shelf_values_map[OF this] show ?thesis
    using assms(1,3,4) by (simp add: get_values_def check_finalized_def map_nth)
qed

lemma copy_to_fresh_file:
  assumes h: "finalized_with w e vs ls" and m: "\<not> e_on_disk e" and pos: "0 < len e"
    and fresh: "db_log_weights (files w fn) = None"
  shows "\<exists>w1 p. copy w e (Some fn) = Inr (w1, p) \<and> e_on_disk p \<and> e_file_name p = fn \<and>
     e_name p = ''Empirical'' \<and> 0 < len p \<and> finalized_with w1 p vs ls"
proof -
  from h m have fin: "e_finalized e" and v: "val_lists w (e_values e) = vs"
    and l: "lw_lists w (e_log_weights e) = ls"
    and len: "length vs = len e" "length ls = len e"
    by (auto simp: finalized_with_def get_values_def split: sum.splits)
  have c: "copy w e (Some fn) =
      Empirical_init w (Some vs) (Some ls) None (Some fn) 1000 ''Empirical''"
    using fin m by (simp add: copy_def check_finalized_def v l)
  have ne: "vs \<noteq> []" using len pos by auto
  have le: "length vs \<le> length ls" using len by simp
  from Empirical_init_on_disk_fresh[OF ne le fresh, of None 1000 "''Empirical''"]
  obtain w1 p where i: "Empirical_init w (Some vs) (Some ls) None (Some fn) 1000 ''Empirical''
       = Inr (w1, p)"
    and q: "e_on_disk p" "\<not> e_shelf_closed p" "e_file_name p = fn" "e_name p = ''Empirical''"
      "e_log_weights p = next_ref w" "e_finalized p" "e_length p = length vs"
      "e_categorical p = Some (Categorical (take (length vs) ls))"
      "lw_lists w1 = (lw_lists w)(next_ref w := take (length vs) ls)"
      "\<forall>i < length vs. db_items (files w1 fn) (int i) = Some (vs ! i)"
    by blast
  have g: "get_values w1 p = Inr vs"
    using get_values_on_disk[OF q(1,2,6,7)] q(3,10) by simp
  have "finalized_with w1 p vs ls"
    using g q len by (simp add: finalized_with_def len_def)
  then show ?thesis
    using c i q ne by (simp add: len_def)
qed

lemma copy_to_memory:
  assumes h: "finalized_with w e vs ls" and d: "e_on_disk e" and pos: "0 < len e"
  shows "\<exists>w1 c. copy w e None = Inr (w1, c) \<and> \<not> e_on_disk c \<and>
     e_name c = ''Empirical'' \<and> finalized_with w1 c vs ls \<and>
     val_lists w1 (e_values c) = vs \<and> lw_lists w1 (e_log_weights c) = ls"
proof -
  from h have fin: "e_finalized e" and g: "get_values w e = Inr vs"
    and l: "lw_lists w (e_log_weights e) = ls"
    and len: "length vs = len e" "length ls = len e"
    by (auto simp: finalized_with_def)
  have c: "copy w e None =
      Empirical_init w (Some vs) (Some ls) None None 1000 ''Empirical''"
    using fin d by (simp add: copy_def check_finalized_def g l)
  have ne: "vs \<noteq> []" using len pos by auto
  have le: "length vs \<le> length ls" using len by simp
  from Empirical_init_in_memory_log_weights[OF ne le, of w None 1000 "''Empirical''"]
  show ?thesis
    unfolding c using len
    by (elim exE conjE)
       (simp add: finalized_with_def get_values_def check_finalized_def len_def)
qed

text \<open>
  C1, as amended. A finalized, non-empty in-memory collection, copied to a file that has
  no entry \<^verbatim>\<open>'log_weights'\<close> yet and copied back to memory, gives a finalized in-memory
  collection with the same values and the same log-weights, in the same order.
\<close>

theorem copy_round_trip:
  assumes "finalized_with w e vs ls" and "\<not> e_on_disk e" and "0 < len e"
    and "db_log_weights (files w fn) = None"
  shows "\<exists>w1 p w2 c. copy w e (Some fn) = Inr (w1, p) \<and> e_on_disk p \<and>
     copy w1 p None = Inr (w2, c) \<and> \<not> e_on_disk c \<and> e_finalized c \<and>
     val_lists w2 (e_values c) = val_lists w (e_values e) \<and>
     lw_lists w2 (e_log_weights c) = lw_lists w (e_log_weights e) \<and>
     get_values w2 c = get_values w e"
proof -
  from assms(1,2) have v: "val_lists w (e_values e) = vs"
    and l: "lw_lists w (e_log_weights e) = ls" and g: "get_values w e = Inr vs"
    by (auto simp: finalized_with_def get_values_def split: sum.splits)
  from copy_to_fresh_file[OF assms] obtain w1 p where
    1: "copy w e (Some fn) = Inr (w1, p)" "e_on_disk p" "0 < len p"
      "finalized_with w1 p vs ls"
    by blast
  from copy_to_memory[OF 1(4,2,3)] obtain w2 c where
    2: "copy w1 p None = Inr (w2, c)" "\<not> e_on_disk c" "finalized_with w2 c vs ls"
      "val_lists w2 (e_values c) = vs" "lw_lists w2 (e_log_weights c) = ls"
    by blast
  show ?thesis
    using 1 2 v l g by (simp add: finalized_with_def)
qed

theorem copy_round_trip_witness:
  "\<exists>w1 p w2 c. copy ex_world_123 ex_emp_123 (Some ''db'') = Inr (w1, p) \<and>
     copy w1 p None = Inr (w2, c) \<and>
     val_lists w2 (e_values c) = [1, 2, 3] \<and> lw_lists w2 (e_log_weights c) = [0, 0, 0]"
proof -
  have h: "finalized_with ex_world_123 ex_emp_123 [1, 2, 3] [0, 0, 0]"
    by (simp add: finalized_with_def ex_world_123_def ex_emp_123_def get_values_def
        check_finalized_def len_def)
  have m: "\<not> e_on_disk ex_emp_123" and pos: "0 < len ex_emp_123"
    by (simp_all add: len_def ex_emp_123_def)
  have f: "db_log_weights (files ex_world_123 ''db'') = None"
    by (simp add: ex_world_123_def empty_dbm_def)
  have v: "val_lists ex_world_123 (e_values ex_emp_123) = [1, 2, 3]"
    "lw_lists ex_world_123 (e_log_weights ex_emp_123) = [0, 0, 0]"
    by (simp_all add: ex_world_123_def ex_emp_123_def)
  from copy_round_trip[OF h m pos f] show ?thesis
    unfolding v by blast
qed

theorem copy_round_trip_counterexample:
  "(\<exists>w0 e0 w1 p w2 c.
      rename ex_world_123 ex_emp_123 ''posterior'' = Inr (w0, e0) \<and>
      e_name e0 = ''posterior'' \<and>
      copy w0 e0 (Some ''db'') = Inr (w1, p) \<and> copy w1 p None = Inr (w2, c) \<and>
      e_name c = ''Empirical'') \<and>
   (\<exists>w1 p w2 c.
      val_lists ex_world_123_old (e_values ex_emp_123) = [1, 2, 3] \<and>
      lw_lists ex_world_123_old (e_log_weights ex_emp_123) = [0, 0, 0] \<and>
      copy ex_world_123_old ex_emp_123 (Some ''db'') = Inr (w1, p) \<and>
      copy w1 p None = Inr (w2, c) \<and>
      val_lists w2 (e_values c) = [9, 1, 2, 3] \<and>
      lw_lists w2 (e_log_weights c) = [7, 0, 0, 0])"
proof (intro conjI)
  let ?e0 = "ex_emp_123\<lparr>e_name := ''posterior''\<rparr>"
  have r: "rename ex_world_123 ex_emp_123 ''posterior'' = Inr (ex_world_123, ?e0)"
    by (simp add: rename_def ex_emp_123_def Let_def)
  have h: "finalized_with ex_world_123 ?e0 [1, 2, 3] [0, 0, 0]"
    by (simp add: finalized_with_def ex_world_123_def ex_emp_123_def get_values_def
        check_finalized_def len_def)
  have m: "\<not> e_on_disk ?e0" and pos: "0 < len ?e0"
    by (simp_all add: len_def ex_emp_123_def)
  have f: "db_log_weights (files ex_world_123 ''db'') = None"
    by (simp add: ex_world_123_def empty_dbm_def)
  from copy_to_fresh_file[OF h m pos f] obtain w1 p where
    1: "copy ex_world_123 ?e0 (Some ''db'') = Inr (w1, p)" "e_on_disk p" "0 < len p"
      "finalized_with w1 p [1, 2, 3] [0, 0, 0]"
    by blast
  from copy_to_memory[OF 1(4,2,3)] obtain w2 c where
    2: "copy w1 p None = Inr (w2, c)" "e_name c = ''Empirical''"
    by blast
  show "\<exists>w0 e0 w1 p w2 c.
      rename ex_world_123 ex_emp_123 ''posterior'' = Inr (w0, e0) \<and>
      e_name e0 = ''posterior'' \<and>
      copy w0 e0 (Some ''db'') = Inr (w1, p) \<and> copy w1 p None = Inr (w2, c) \<and>
      e_name c = ''Empirical''"
    using r 1(1) 2 by simp
next
  show "\<exists>w1 p w2 c.
      val_lists ex_world_123_old (e_values ex_emp_123) = [1, 2, 3] \<and>
      lw_lists ex_world_123_old (e_log_weights ex_emp_123) = [0, 0, 0] \<and>
      copy ex_world_123_old ex_emp_123 (Some ''db'') = Inr (w1, p) \<and>
      copy w1 p None = Inr (w2, c) \<and>
      val_lists w2 (e_values c) = [9, 1, 2, 3] \<and>
      lw_lists w2 (e_log_weights c) = [7, 0, 0, 0]"
    by (simp add: ex_world_123_old_def ex_world_123_def ex_emp_123_def empty_dbm_def
        copy_def check_finalized_def Empirical_init_def Let_def add_sequence_def add_def
        to_log_weight_def finalize_def Categorical_def put_file_def file_of_def
        get_values_def shelf_getitem_def)
qed

subsection \<open>Finalized collections that the constructor and finalize build\<close>

lemma Empirical_init_finalized_with:
  assumes "vs \<noteq> []" and "length vs = length ls"
  shows "\<exists>w' e'. Empirical_init w (Some vs) (Some ls) None None t nm = Inr (w', e') \<and>
     \<not> e_on_disk e' \<and> 0 < len e' \<and> finalized_with w' e' vs ls"
proof -
  have le: "length vs \<le> length ls" using assms(2) by simp
  have ne: "ls \<noteq> []" using assms by auto
  from Empirical_init_in_memory_log_weights[OF assms(1) le, of w None t nm] show ?thesis
    using assms ne
    by (elim exE conjE)
       (simp add: finalized_with_def get_values_def check_finalized_def len_def)
qed

lemma finalize_finalized_with:
  assumes "finalize w e = Inr (w', e')" and "\<not> e_on_disk e"
    and "length (val_lists w (e_values e)) = length (lw_lists w (e_log_weights e))"
  shows "finalized_with w' e' (val_lists w (e_values e)) (lw_lists w (e_log_weights e))"
proof -
  note ne = finalize_Inr_nonempty[OF assms(1)]
  show ?thesis
    using assms unfolding finalize_in_memory[OF assms(2) ne]
    by (auto simp: finalized_with_def get_values_def check_finalized_def len_def)
qed

lemma finalize_twice:
  assumes "finalize w e = Inr (w', e')"
  shows "\<exists>w''. finalize w' e' = Inr (w'', e')"
proof -
  note ne = finalize_Inr_nonempty[OF assms]
  show ?thesis
  proof (cases "e_on_disk e")
    case True
    note op = finalize_Inr_open[OF assms True]
    have r: "e_on_disk e' \<and> \<not> e_shelf_closed e' \<and> lw_lists w' (e_log_weights e') \<noteq> [] \<and>
        e_categorical e' = Some (Categorical (lw_lists w' (e_log_weights e'))) \<and>
        e_uniform_weights e' = list_all (\<lambda>l. l = hd (lw_lists w' (e_log_weights e')))
           (lw_lists w' (e_log_weights e')) \<and>
        e_length e' = length (lw_lists w' (e_log_weights e')) \<and> e_finalized e'"
      using assms ne op True unfolding finalize_on_disk[OF True op ne] by auto
    then have "e_on_disk e'" "\<not> e_shelf_closed e'" "lw_lists w' (e_log_weights e') \<noteq> []"
      by simp_all
    from finalize_on_disk[OF this] r show ?thesis by simp
  next
    case False
    have r: "\<not> e_on_disk e' \<and> lw_lists w' (e_log_weights e') \<noteq> [] \<and>
        e_categorical e' = Some (Categorical (lw_lists w' (e_log_weights e'))) \<and>
        e_uniform_weights e' = list_all (\<lambda>l. l = hd (lw_lists w' (e_log_weights e')))
           (lw_lists w' (e_log_weights e')) \<and>
        e_length e' = length (lw_lists w' (e_log_weights e')) \<and> e_finalized e'"
      using assms ne False unfolding finalize_in_memory[OF False ne] by auto
    then have "\<not> e_on_disk e'" "lw_lists w' (e_log_weights e') \<noteq> []"
      by simp_all
    from finalize_in_memory[OF this] r show ?thesis by simp
  qed
qed

subsection \<open>The copy on a file has lists of its own\<close>

lemma copy_to_file_own_lists:
  assumes h: "finalized_with w e vs ls" and m: "\<not> e_on_disk e" and pos: "0 < len e"
    and fresh: "db_log_weights (files w fn) = None"
    and alloc: "e_log_weights e < next_ref w" "e_values e < next_ref w"
  shows "\<exists>w1 p. copy w e (Some fn) = Inr (w1, p) \<and>
     (\<exists>w2 p2. add w1 p v lw wt = Inr (w2, p2) \<and>
        val_lists w2 (e_values e) = vs \<and> lw_lists w2 (e_log_weights e) = ls)"
proof -
  from h m have fin: "e_finalized e" and v: "val_lists w (e_values e) = vs"
    and l: "lw_lists w (e_log_weights e) = ls"
    and len: "length vs = len e" "length ls = len e"
    by (auto simp: finalized_with_def get_values_def split: sum.splits)
  have c: "copy w e (Some fn) =
      Empirical_init w (Some vs) (Some ls) None (Some fn) 1000 ''Empirical''"
    using fin m by (simp add: copy_def check_finalized_def v l)
  have ne: "vs \<noteq> []" using len pos by auto
  have le: "length vs \<le> length ls" using len by simp
  from Empirical_init_on_disk_fresh[OF ne le fresh, of None 1000 "''Empirical''"]
  obtain w1 p where i: "Empirical_init w (Some vs) (Some ls) None (Some fn) 1000 ''Empirical''
       = Inr (w1, p)"
    and q: "e_on_disk p" "\<not> e_shelf_closed p" "e_log_weights p = next_ref w"
      "lw_lists w1 = (lw_lists w)(next_ref w := take (length vs) ls)"
      "val_lists w1 = (val_lists w)(next_ref w + 1 := [])"
    by blast
  from add_on_disk[OF q(1,2), of w1 v lw wt] obtain w2 p2 where
    a: "add w1 p v lw wt = Inr (w2, p2)"
    and r: "lw_lists w2 = (lw_lists w1)
        (e_log_weights p := lw_lists w1 (e_log_weights p) @ [to_log_weight lw wt])"
      "val_lists w2 = val_lists w1"
    by blast
  have "val_lists w2 (e_values e) = vs" "lw_lists w2 (e_log_weights e) = ls"
    using r q alloc v l by simp_all
  then show ?thesis
    using c i a by simp
qed

end
